theory Spec2Isabelle
  imports Main
begin

section \<open>Data model\<close>

text \<open>
  The component \<^verbatim>\<open>App\<close> of \<^verbatim>\<open>frontend/src/App.tsx\<close> keeps seven state cells
  (\<^verbatim>\<open>useState\<close>) and derives three values from them (\<^verbatim>\<open>useMemo\<close>). The cells
  become one record, every handler a function on that record which also returns the
  effects it requests (scrolling, opening a window).

  An optional field (\<^verbatim>\<open>null\<close> or \<^verbatim>\<open>undefined\<close>) is an \<open>option\<close>; both absent
  values are \<open>None\<close>. A JavaScript string is the list of the bytes of its UTF-8
  encoding. A page number is a natural number; the component holds it in a JavaScript
  number, which is exact for the integers below \<open>2 ^ 53\<close>.
\<close>

text \<open>
  Modelled from the spec: the types \<^verbatim>\<open>AskRequest\<close>, \<^verbatim>\<open>SourceChunk\<close> and
  \<^verbatim>\<open>AskResponse\<close> of \<^verbatim>\<open>./types\<close>, which the component imports. The fields
  are those of the data model (Request, Citation, Response), under the names the
  component reads them by. The component reads \<^verbatim>\<open>sources\<close> with optional chaining,
  so the list itself may be absent.
\<close>

record AskRequest =
  question :: string
  top_k :: nat
  pool_size :: nat
  rerank :: bool

record SourceChunk =
  label :: string
  file_name :: "string option"
  page_number :: "nat option"
  viewer_url :: "string option"
  chunk_text :: string

record AskResponse =
  answer_text :: string
  sources :: "SourceChunk list option"

record app_state =
  request :: AskRequest
  answer :: "AskResponse option"
  selectedSource :: "SourceChunk option"
  loading :: bool
  error :: "string option"
  expandedKey :: "string option"
  answerHighlighted :: bool

text \<open>
  What a rejected promise carries: an instance of \<^verbatim>\<open>Error\<close> with its message (which
  may be empty), or a value that is no instance of \<^verbatim>\<open>Error\<close>, with its
  \<^verbatim>\<open>message\<close> property when it has one.
\<close>

datatype thrown = JsError string | JsOther "string option"

datatype settled = Resolved AskResponse | Rejected thrown

text \<open>
  The effects a handler requests. The two scrolls are scheduled with a timer;
  \<open>WindowOpen url target features\<close> is \<^verbatim>\<open>window.open\<close>.
\<close>

datatype effect =
    ScrollAnswerIntoView
  | ScrollPreviewIntoView
  | WindowOpen string string string

text \<open>
  A parsed URL as the component uses it: the serialisation of everything before the
  fragment, whether the path is opaque (as in \<^verbatim>\<open>mailto:\<close> and \<^verbatim>\<open>data:\<close> URLs, never
  in \<^verbatim>\<open>http\<close> and \<^verbatim>\<open>https\<close> ones), and the fragment (\<open>None\<close> when the URL has
  none, \<open>Some []\<close> for a bare \<^verbatim>\<open>#\<close>).
\<close>

record url =
  url_prefix :: string
  url_opaque_path :: bool
  url_fragment :: "string option"

text \<open>
  The collaborators of the component, as parameters: whether a \<^verbatim>\<open>window\<close> exists,
  \<^verbatim>\<open>resolveViewerUrl\<close> of \<^verbatim>\<open>./client\<close>, and the URL parser of the host
  (\<^verbatim>\<open>new URL(s)\<close>, \<open>None\<close> when it throws). The other collaborator,
  \<^verbatim>\<open>askQuestion\<close> of \<^verbatim>\<open>./client\<close>, shows as the way its call settles.
\<close>

record platform =
  has_window :: bool
  resolveViewerUrl :: "string option \<Rightarrow> string option"
  URL_new :: "string \<Rightarrow> url option"

section \<open>JavaScript helpers\<close>

text \<open>Truthiness of an optional string: present and not empty.\<close>

definition truthy_str :: "string option \<Rightarrow> bool" where
  "truthy_str v = (case v of None \<Rightarrow> False | Some s \<Rightarrow> s \<noteq> [])"

definition digit_char :: "nat \<Rightarrow> char" where
  "digit_char d = char_of (48 + d)"

text \<open>
  The decimal numeral of a number. A template literal prints an integer below
  \<open>2 ^ 53\<close> so; from \<open>10 ^ 21\<close> on it prints an exponent, and above \<open>2 ^ 53\<close>
  a JavaScript number does not hold every integer.
\<close>

function string_of_nat :: "nat \<Rightarrow> string" where
  "string_of_nat n =
     (if n < 10 then [digit_char n]
      else string_of_nat (n div 10) @ [digit_char (n mod 10)])"
  by pat_completeness auto
termination
  by (relation "measure id") auto

declare string_of_nat.simps [simp del]

section \<open>Derived values\<close>

text \<open>\<^verbatim>\<open>answer?.sources?.[0] ?? null\<close>\<close>

definition first_source :: "AskResponse option \<Rightarrow> SourceChunk option" where
  "first_source a =
     (case a of
        None \<Rightarrow> None
      | Some r \<Rightarrow>
          (case sources r of
             None \<Rightarrow> None
           | Some [] \<Rightarrow> None
           | Some (s # _) \<Rightarrow> Some s))"

definition resolvedSource :: "app_state \<Rightarrow> SourceChunk option" where
  "resolvedSource st =
     (case selectedSource st of
        Some s \<Rightarrow> Some s
      | None \<Rightarrow> first_source (answer st))"

definition no_source_label :: string where
  "no_source_label =
     ''Ch'' @ [CHR 0xC6, CHR 0xB0] @ ''a ch'' @ [CHR 0xE1, CHR 0xBB, CHR 0x8D] @
     ''n ngu'' @ [CHR 0xE1, CHR 0xBB, CHR 0x93] @ ''n''"

definition page_infix :: string where
  "page_infix = '' '' @ [CHR 0xE2, CHR 0x80, CHR 0x93] @ '' trang ''"

definition resolvedSourceLabel :: "app_state \<Rightarrow> string" where
  "resolvedSourceLabel st =
     (case resolvedSource st of
        None \<Rightarrow> no_source_label
      | Some r \<Rightarrow>
          (let pageSuffix =
             (case page_number r of
                None \<Rightarrow> []
              | Some n \<Rightarrow> if n \<noteq> 0 then page_infix @ string_of_nat n else [])
           in label r @ pageSuffix))"

section \<open>Handlers\<close>

definition scrollAnswerIntoView :: "platform \<Rightarrow> effect list" where
  "scrollAnswerIntoView p = (if has_window p then [ScrollAnswerIntoView] else [])"

definition scrollPreviewIntoView :: "platform \<Rightarrow> effect list" where
  "scrollPreviewIntoView p = (if has_window p then [ScrollPreviewIntoView] else [])"

text \<open>
  \<^verbatim>\<open>handleSubmit\<close> runs in two parts: up to the \<^verbatim>\<open>await\<close>, and from the moment
  the call settles (the \<^verbatim>\<open>try\<close> or the \<^verbatim>\<open>catch\<close> branch, then \<^verbatim>\<open>finally\<close>).
\<close>

definition handleSubmit_begin :: "app_state \<Rightarrow> app_state" where
  "handleSubmit_begin st = (st\<lparr>loading := True\<rparr>)\<lparr>error := None\<rparr>"

definition failure_message :: "thrown \<Rightarrow> string" where
  "failure_message err =
     (case err of JsError m \<Rightarrow> m | JsOther carried \<Rightarrow> ''Failed to reach backend'')"

definition handleSubmit_settle ::
  "platform \<Rightarrow> settled \<Rightarrow> app_state \<Rightarrow> app_state \<times> effect list" where
  "handleSubmit_settle p r st =
     (case r of
        Resolved response \<Rightarrow>
          ((st\<lparr>answer := Some response,
               selectedSource := first_source (Some response),
               expandedKey := None,
               answerHighlighted := True\<rparr>)\<lparr>loading := False\<rparr>,
           scrollAnswerIntoView p)
      | Rejected err \<Rightarrow>
          ((st\<lparr>error := Some (failure_message err),
               answer := None,
               answerHighlighted := False\<rparr>)\<lparr>loading := False\<rparr>,
           []))"

definition handleSubmit ::
  "platform \<Rightarrow> settled \<Rightarrow> app_state \<Rightarrow> app_state \<times> effect list" where
  "handleSubmit p r st = handleSubmit_settle p r (handleSubmit_begin st)"

definition handleSourceClick ::
  "platform \<Rightarrow> SourceChunk \<Rightarrow> app_state \<Rightarrow> app_state \<times> effect list" where
  "handleSourceClick p source st =
     (st\<lparr>selectedSource := Some source, answerHighlighted := False\<rparr>,
      scrollPreviewIntoView p)"

definition clearAnswerHighlight :: "app_state \<Rightarrow> app_state" where
  "clearAnswerHighlight st = st\<lparr>answerHighlighted := False\<rparr>"

definition handleInputChange :: "string \<Rightarrow> app_state \<Rightarrow> app_state" where
  "handleInputChange v st =
     clearAnswerHighlight (st\<lparr>request := (request st)\<lparr>question := v\<rparr>\<rparr>)"

text \<open>
  The key of a citation row:
  \<^verbatim>\<open>`${source.file_name ?? source.label}-${source.page_number ?? idx}`\<close>.
\<close>

definition source_key :: "SourceChunk \<Rightarrow> nat \<Rightarrow> string" where
  "source_key source idx =
     (case file_name source of Some f \<Rightarrow> f | None \<Rightarrow> label source) @ ''-'' @
     string_of_nat (case page_number source of Some n \<Rightarrow> n | None \<Rightarrow> idx)"

text \<open>
  \<open>isActive\<close> of a row, from lines 182 to 185. \<^verbatim>\<open>resolvedSource?.viewer_url\<close>
  is absent when there is no resolved source; a label is always a string, so the
  comparison of labels fails then.
\<close>

definition isActive :: "app_state \<Rightarrow> SourceChunk \<Rightarrow> bool" where
  "isActive st source =
     ((Option.bind (resolvedSource st) viewer_url = viewer_url source \<and>
       map_option label (resolvedSource st) = Some (label source)) \<or>
      map_option label (selectedSource st) = Some (label source))"

definition isExpanded :: "app_state \<Rightarrow> string \<Rightarrow> bool" where
  "isExpanded st key = (expandedKey st = Some key)"

text \<open>
  The click handler of the expand button of the row with key \<open>key\<close> (lines 208 to
  212): \<^verbatim>\<open>clearAnswerHighlight(); setExpandedKey(isExpanded ? null : key)\<close>.
\<close>

definition toggleExpand :: "string \<Rightarrow> app_state \<Rightarrow> app_state" where
  "toggleExpand key st =
     (clearAnswerHighlight st)\<lparr>expandedKey := (if isExpanded st key then None else Some key)\<rparr>"

text \<open>The citations that are rendered: those of \<open>answer\<close>, when it has any.\<close>

definition rendered_sources :: "app_state \<Rightarrow> SourceChunk list" where
  "rendered_sources st =
     (case answer st of
        None \<Rightarrow> []
      | Some r \<Rightarrow> (case sources r of None \<Rightarrow> [] | Some xs \<Rightarrow> xs))"

text \<open>The keys of the rendered rows, in order.\<close>

definition rendered_keys :: "app_state \<Rightarrow> string list" where
  "rendered_keys st =
     map (\<lambda>(source, idx). source_key source idx)
       (zip (rendered_sources st) [0 ..< length (rendered_sources st)])"

text \<open>The rows whose excerpt is shown.\<close>

definition expanded_rows :: "app_state \<Rightarrow> nat list" where
  "expanded_rows st =
     filter (\<lambda>idx. isExpanded st (rendered_keys st ! idx)) [0 ..< length (rendered_keys st)]"

section \<open>The host's URL objects\<close>

text \<open>
  The component calls \<^verbatim>\<open>URL\<close> and \<^verbatim>\<open>URLSearchParams\<close> of the host. The parser
  of a whole URL is a parameter (\<open>URL_new\<close>). The operations on a parsed URL and on
  a parameter list follow the URL standard: the \<^verbatim>\<open>hash\<close> getter and setter, the
  serialiser, and the \<^verbatim>\<open>application/x-www-form-urlencoded\<close> parser and serialiser.

  The parser of a parameter list keeps the percent-decoded bytes of a name or value as
  they are. The host decodes them as UTF-8 and puts the replacement character where
  they are not UTF-8, so the two agree exactly on the names and values whose decoded
  bytes are valid UTF-8 (\<open>utf8_valid\<close>); what is proved of a fragment is stated for
  such fragments only (\<open>within_host_model\<close>).
\<close>

definition is_hex :: "char \<Rightarrow> bool" where
  "is_hex c =
     (let n = (of_char c :: nat)
      in (48 \<le> n \<and> n \<le> 57) \<or> (65 \<le> n \<and> n \<le> 70) \<or> (97 \<le> n \<and> n \<le> 102))"

definition hex_val :: "char \<Rightarrow> nat" where
  "hex_val c =
     (let n = (of_char c :: nat)
      in if n \<le> 57 then n - 48 else if n \<le> 70 then n - 55 else n - 87)"

definition hex_digit :: "nat \<Rightarrow> char" where
  "hex_digit d = char_of (if d < 10 then 48 + d else 55 + d)"

definition percent_byte :: "char \<Rightarrow> string" where
  "percent_byte c =
     [CHR ''%'', hex_digit ((of_char c :: nat) div 16), hex_digit ((of_char c :: nat) mod 16)]"

text \<open>
  Percent-decoding: a \<^verbatim>\<open>%\<close> followed by two hexadecimal digits is one byte, every
  other byte stands for itself.
\<close>

fun percent_decode :: "string \<Rightarrow> string" where
  "percent_decode (c # h1 # h2 # cs) =
     (if c = CHR ''%'' \<and> is_hex h1 \<and> is_hex h2
      then char_of (16 * hex_val h1 + hex_val h2) # percent_decode cs
      else c # percent_decode (h1 # h2 # cs))"
| "percent_decode (c # cs) = c # percent_decode cs"
| "percent_decode [] = []"

text \<open>\<^verbatim>\<open>s.split(d)\<close> for a separator of one character: never the empty list.\<close>

fun split_on :: "char \<Rightarrow> string \<Rightarrow> string list" where
  "split_on d [] = [[]]"
| "split_on d (c # cs) =
     (if c = d then [] # split_on d cs
      else (case split_on d cs of
              piece # pieces \<Rightarrow> (c # piece) # pieces
            | [] \<Rightarrow> [[c]]))"

definition plus_to_space :: "string \<Rightarrow> string" where
  "plus_to_space s = map (\<lambda>c. if c = CHR ''+'' then CHR '' '' else c) s"

text \<open>
  One piece of a parameter string: the name runs to the first \<^verbatim>\<open>=\<close>, the value is
  what follows it (empty when there is no \<^verbatim>\<open>=\<close>).
\<close>

definition urlencoded_pair :: "string \<Rightarrow> string \<times> string" where
  "urlencoded_pair bytes =
     (let name = takeWhile (\<lambda>c. c \<noteq> CHR ''='') bytes;
          val = drop (Suc (length name)) bytes
      in (percent_decode (plus_to_space name), percent_decode (plus_to_space val)))"

definition urlencoded_parse :: "string \<Rightarrow> (string \<times> string) list" where
  "urlencoded_parse input =
     map urlencoded_pair (filter (\<lambda>bytes. bytes \<noteq> []) (split_on CHR ''&'' input))"

text \<open>\<^verbatim>\<open>new URLSearchParams(init)\<close> for a string: one leading \<^verbatim>\<open>?\<close> is dropped.\<close>

definition URLSearchParams_new :: "string \<Rightarrow> (string \<times> string) list" where
  "URLSearchParams_new init =
     urlencoded_parse
       (case init of c # cs \<Rightarrow> if c = CHR ''?'' then cs else init | [] \<Rightarrow> [])"

text \<open>\<^verbatim>\<open>params.delete(name)\<close>: every pair of that name goes.\<close>

definition params_delete :: "string \<Rightarrow> (string \<times> string) list \<Rightarrow> (string \<times> string) list" where
  "params_delete name params = filter (\<lambda>(n, v). n \<noteq> name) params"

definition urlencoded_safe :: "char \<Rightarrow> bool" where
  "urlencoded_safe c =
     (let n = (of_char c :: nat)
      in (48 \<le> n \<and> n \<le> 57) \<or> (65 \<le> n \<and> n \<le> 90) \<or> (97 \<le> n \<and> n \<le> 122) \<or>
         c = CHR ''*'' \<or> c = CHR ''-'' \<or> c = CHR ''.'' \<or> c = CHR ''_'')"

definition urlencoded_byte :: "char \<Rightarrow> string" where
  "urlencoded_byte c =
     (if c = CHR '' '' then ''+''
      else if urlencoded_safe c then [c]
      else percent_byte c)"

definition urlencoded_string :: "string \<Rightarrow> string" where
  "urlencoded_string s = concat (map urlencoded_byte s)"

text \<open>\<^verbatim>\<open>params.toString()\<close>: \<^verbatim>\<open>name=value\<close>, joined by \<^verbatim>\<open>&\<close>.\<close>

fun params_toString :: "(string \<times> string) list \<Rightarrow> string" where
  "params_toString [] = []"
| "params_toString [(n, v)] = urlencoded_string n @ ''='' @ urlencoded_string v"
| "params_toString ((n, v) # rest) =
     urlencoded_string n @ ''='' @ urlencoded_string v @ ''&'' @ params_toString rest"

text \<open>The \<^verbatim>\<open>hash\<close> getter: empty for no fragment and for the empty fragment.\<close>

definition url_hash :: "url \<Rightarrow> string" where
  "url_hash u =
     (case url_fragment u of
        None \<Rightarrow> []
      | Some f \<Rightarrow> if f = [] then [] else CHR ''#'' # f)"

text \<open>
  The \<^verbatim>\<open>hash\<close> setter: the empty string removes the fragment, and the trailing spaces
  of an opaque path with it; otherwise one leading \<^verbatim>\<open>#\<close> is dropped, tabs and
  newlines are removed and the bytes of the fragment percent-encode set are encoded.
\<close>

definition strip_trailing_spaces :: "string \<Rightarrow> string" where
  "strip_trailing_spaces s = rev (dropWhile (\<lambda>c. c = CHR '' '') (rev s))"

definition fragment_encode_set :: "char \<Rightarrow> bool" where
  "fragment_encode_set c =
     ((of_char c :: nat) \<le> 32 \<or> (of_char c :: nat) > 126 \<or>
      c = CHR 0x22 \<or> c = CHR ''<'' \<or> c = CHR ''>'' \<or> c = CHR 0x60)"

definition fragment_encode :: "string \<Rightarrow> string" where
  "fragment_encode s =
     concat (map (\<lambda>c. if fragment_encode_set c then percent_byte c else [c])
       (filter (\<lambda>c. c \<noteq> CHR 0x09 \<and> c \<noteq> CHR 0x0A \<and> c \<noteq> CHR 0x0D) s))"

definition url_hash_set :: "string \<Rightarrow> url \<Rightarrow> url" where
  "url_hash_set v u =
     (if v = []
      then u\<lparr>url_prefix :=
               (if url_opaque_path u then strip_trailing_spaces (url_prefix u)
                else url_prefix u),
             url_fragment := None\<rparr>
      else u\<lparr>url_fragment :=
               Some (fragment_encode
                 (case v of c # cs \<Rightarrow> if c = CHR ''#'' then cs else v | [] \<Rightarrow> []))\<rparr>)"

text \<open>\<^verbatim>\<open>url.toString()\<close>: the fragment follows a \<^verbatim>\<open>#\<close> when there is one.\<close>

definition url_toString :: "url \<Rightarrow> string" where
  "url_toString u =
     url_prefix u @ (case url_fragment u of None \<Rightarrow> [] | Some f \<Rightarrow> CHR ''#'' # f)"

text \<open>
  The byte strings that are UTF-8: one byte below \<^verbatim>\<open>80\<close>, or a lead byte from
  \<^verbatim>\<open>C2\<close> to \<^verbatim>\<open>F4\<close> with its one, two or three continuation bytes, the first of
  them in the narrower range that rules out overlong forms, surrogates and code points
  beyond \<^verbatim>\<open>10FFFF\<close>.
\<close>

definition byte_in :: "nat \<Rightarrow> nat \<Rightarrow> char \<Rightarrow> bool" where
  "byte_in lo hi c = (lo \<le> of_char c \<and> (of_char c :: nat) \<le> hi)"

fun utf8_valid :: "string \<Rightarrow> bool" where
  "utf8_valid [] = True"
| "utf8_valid (a # rest) =
     (if byte_in 0x00 0x7F a then utf8_valid rest
      else if byte_in 0xC2 0xDF a then
        (case rest of
           b # rest' \<Rightarrow> byte_in 0x80 0xBF b \<and> utf8_valid rest'
         | _ \<Rightarrow> False)
      else if byte_in 0xE0 0xEF a then
        (case rest of
           b # c # rest' \<Rightarrow>
             byte_in (if a = CHR 0xE0 then 0xA0 else 0x80)
               (if a = CHR 0xED then 0x9F else 0xBF) b \<and>
             byte_in 0x80 0xBF c \<and> utf8_valid rest'
         | _ \<Rightarrow> False)
      else if byte_in 0xF0 0xF4 a then
        (case rest of
           b # c # d # rest' \<Rightarrow>
             byte_in (if a = CHR 0xF0 then 0x90 else 0x80)
               (if a = CHR 0xF4 then 0x8F else 0xBF) b \<and>
             byte_in 0x80 0xBF c \<and> byte_in 0x80 0xBF d \<and> utf8_valid rest'
         | _ \<Rightarrow> False)
      else False)"

text \<open>
  The parsed URLs on which these operations are the host's: the path is not opaque, and
  every name and value of the fragment's parameter list decodes to UTF-8.
\<close>

definition decodes_to_utf8 :: "string \<Rightarrow> bool" where
  "decodes_to_utf8 f =
     list_all (\<lambda>(n, v). utf8_valid n \<and> utf8_valid v) (URLSearchParams_new f)"

definition within_host_model :: "url \<Rightarrow> bool" where
  "within_host_model u =
     (\<not> url_opaque_path u \<and>
      (case url_fragment u of None \<Rightarrow> True | Some f \<Rightarrow> decodes_to_utf8 f))"

section \<open>The preview link and the full text\<close>

text \<open>\<^verbatim>\<open>absolute.split("#")[0]\<close>\<close>

definition before_hash :: "string \<Rightarrow> string" where
  "before_hash absolute =
     (case split_on CHR ''#'' absolute of piece # _ \<Rightarrow> piece | [] \<Rightarrow> [])"

text \<open>The \<^verbatim>\<open>try\<close> block of \<^verbatim>\<open>previewUrl\<close>, on a URL that parsed.\<close>

definition without_search :: "url \<Rightarrow> string" where
  "without_search u =
     url_toString
       (if length (url_hash u) > 1
        then (let params = params_delete ''search'' (URLSearchParams_new (drop 1 (url_hash u)));
                  hash = params_toString params
              in url_hash_set (if hash \<noteq> [] then CHR ''#'' # hash else []) u)
        else u)"

text \<open>
  \<^verbatim>\<open>previewUrl\<close> as a function of \<^verbatim>\<open>resolvedSource?.viewer_url\<close>, the one value
  it depends on.
\<close>

definition normalize_viewer_url :: "platform \<Rightarrow> string option \<Rightarrow> string option" where
  "normalize_viewer_url p v =
     (if \<not> truthy_str v then None
      else (case resolveViewerUrl p v of
              None \<Rightarrow> None
            | Some absolute \<Rightarrow>
                if absolute = [] then None
                else (case URL_new p absolute of
                        Some u \<Rightarrow> Some (without_search u)
                      | None \<Rightarrow> Some (before_hash absolute))))"

definition previewUrl :: "platform \<Rightarrow> app_state \<Rightarrow> string option" where
  "previewUrl p st = normalize_viewer_url p (Option.bind (resolvedSource st) viewer_url)"

text \<open>
  The click handler of the full-text button (lines 243 to 250). The button is rendered
  when \<^verbatim>\<open>resolvedSource?.viewer_url\<close> is truthy.
\<close>

definition full_text_rendered :: "app_state \<Rightarrow> bool" where
  "full_text_rendered st =
     (answer st \<noteq> None \<and> truthy_str (Option.bind (resolvedSource st) viewer_url))"

definition openFullText :: "platform \<Rightarrow> app_state \<Rightarrow> effect list" where
  "openFullText p st =
     (case resolveViewerUrl p (Option.bind (resolvedSource st) viewer_url) of
        None \<Rightarrow> []
      | Some direct \<Rightarrow>
          if direct \<noteq> [] \<and> has_window p
          then [WindowOpen direct ''_blank'' ''noopener,noreferrer'']
          else [])"

section \<open>Events\<close>

text \<open>
  What the user and the pending call can do to the component. A click on a row, or on
  the full-text button, bubbles to the answer card, whose \<^verbatim>\<open>onClick\<close> clears the
  highlight; the two buttons of a row stop the propagation. An element that is not
  rendered, and the submit button while it is disabled, receives no event: the state
  stays as it is.
\<close>

datatype event =
    InputChange string
  | SubmitClick
  | SubmitSettled settled
  | AnswerCardClick
  | AnswerCardFocus
  | CitationRowClick nat
  | ExpandButtonClick nat
  | QuickViewButtonClick nat
  | FullTextButtonClick

fun step :: "platform \<Rightarrow> event \<Rightarrow> app_state \<Rightarrow> app_state \<times> effect list" where
  "step p (InputChange v) st = (handleInputChange v st, [])"
| "step p SubmitClick st =
     (if loading st then (st, []) else (handleSubmit_begin st, []))"
| "step p (SubmitSettled r) st = handleSubmit_settle p r st"
| "step p AnswerCardClick st =
     (if answer st = None then (st, []) else (clearAnswerHighlight st, []))"
| "step p AnswerCardFocus st =
     (if answer st = None then (st, []) else (clearAnswerHighlight st, []))"
| "step p (CitationRowClick idx) st =
     (if idx < length (rendered_sources st)
      then (case handleSourceClick p (rendered_sources st ! idx) st of
              (st', fx) \<Rightarrow> (clearAnswerHighlight st', fx))
      else (st, []))"
| "step p (ExpandButtonClick idx) st =
     (if idx < length (rendered_sources st)
      then (toggleExpand (source_key (rendered_sources st ! idx) idx) st, [])
      else (st, []))"
| "step p (QuickViewButtonClick idx) st =
     (if idx < length (rendered_sources st)
      then handleSourceClick p (rendered_sources st ! idx) (clearAnswerHighlight st)
      else (st, []))"
| "step p FullTextButtonClick st =
     (if full_text_rendered st then (clearAnswerHighlight st, openFullText p st)
      else (st, []))"

text \<open>The state the component starts in.\<close>

definition DEFAULT_REQUEST :: AskRequest where
  "DEFAULT_REQUEST =
     \<lparr>question =
        ''Tr'' @ [CHR 0xC6, CHR 0xB0, CHR 0xE1, CHR 0xBB, CHR 0x9B] @ ''c khi c'' @
        [CHR 0xC3, CHR 0xB3] @ '' ch'' @ [CHR 0xE1, CHR 0xBB, CHR 0xAF] @ '' N'' @
        [CHR 0xC3, CHR 0xB4] @ ''m, ng'' @ [CHR 0xC6, CHR 0xB0, CHR 0xE1, CHR 0xBB, CHR 0x9D] @
        ''i Vi'' @ [CHR 0xE1, CHR 0xBB, CHR 0x87] @ ''t c'' @ [CHR 0xC3, CHR 0xB3] @ '' t'' @
        [CHR 0xE1, CHR 0xBB, CHR 0xAB] @ ''ng c'' @ [CHR 0xC3, CHR 0xB3] @ '' ch'' @
        [CHR 0xE1, CHR 0xBB, CHR 0xAF] @ '' vi'' @ [CHR 0xE1, CHR 0xBA, CHR 0xBF] @ ''t ri'' @
        [CHR 0xC3, CHR 0xAA] @ ''ng kh'' @ [CHR 0xC3, CHR 0xB4] @ ''ng?'',
      top_k = 10, pool_size = 20, rerank = True\<rparr>"

definition initial_state :: app_state where
  "initial_state =
     \<lparr>request = DEFAULT_REQUEST, answer = None, selectedSource = None, loading = False,
      error = None, expandedKey = None, answerHighlighted = False\<rparr>"

text \<open>The state after a list of events, the first event first.\<close>

fun run :: "platform \<Rightarrow> app_state \<Rightarrow> event list \<Rightarrow> app_state" where
  "run p st [] = st"
| "run p st (ev # evs) = run p (fst (step p ev st)) evs"

text \<open>
  When citations are rendered, one of them is selected: with no selection nothing is
  rendered, and a selection is a rendered citation unless there is no answer.
\<close>

definition selection_listed :: "app_state \<Rightarrow> bool" where
  "selection_listed st =
     (case selectedSource st of
        None \<Rightarrow> rendered_sources st = []
      | Some s \<Rightarrow> answer st = None \<or> s \<in> set (rendered_sources st))"

section \<open>The specification's wording and the examples\<close>

text \<open>
  The resolved citation as the specification words it: the selected citation if set,
  else the first citation of the latest response, else none.
\<close>

definition spec_resolvedCitation :: "app_state \<Rightarrow> SourceChunk option" where
  "spec_resolvedCitation st =
     (if selectedSource st \<noteq> None then selectedSource st
      else if rendered_sources st \<noteq> [] then Some (hd (rendered_sources st))
      else None)"

text \<open>
  The events that turn the highlight off in a state, by the element they reach: a
  change of the question, a failed call, and every click or focus inside the answer
  card that finds its element rendered.
\<close>

fun clears_highlight :: "app_state \<Rightarrow> event \<Rightarrow> bool" where
  "clears_highlight st (InputChange v) = True"
| "clears_highlight st SubmitClick = False"
| "clears_highlight st (SubmitSettled (Resolved r)) = False"
| "clears_highlight st (SubmitSettled (Rejected err)) = True"
| "clears_highlight st AnswerCardClick = (answer st \<noteq> None)"
| "clears_highlight st AnswerCardFocus = (answer st \<noteq> None)"
| "clears_highlight st (CitationRowClick idx) = (idx < length (rendered_sources st))"
| "clears_highlight st (ExpandButtonClick idx) = (idx < length (rendered_sources st))"
| "clears_highlight st (QuickViewButtonClick idx) = (idx < length (rendered_sources st))"
| "clears_highlight st FullTextButtonClick = full_text_rendered st"

text \<open>
  A host for the examples: there is a window, \<open>resolveViewerUrl\<close> returns its
  argument, and the parser accepts the strings that start with \<^verbatim>\<open>https://\<close>,
  which it cuts at the first \<^verbatim>\<open>#\<close>.
\<close>

definition example_URL :: "string \<Rightarrow> url option" where
  "example_URL s =
     (if take 8 s = ''https://''
      then Some \<lparr>url_prefix = takeWhile (\<lambda>c. c \<noteq> CHR ''#'') s,
                 url_opaque_path = False,
                 url_fragment =
                   (case dropWhile (\<lambda>c. c \<noteq> CHR ''#'') s of
                      [] \<Rightarrow> None
                    | _ # f \<Rightarrow> Some f)\<rparr>
      else None)"

definition example_platform :: platform where
  "example_platform =
     \<lparr>has_window = True, resolveViewerUrl = (\<lambda>v. v), URL_new = example_URL\<rparr>"

definition citation :: "string \<Rightarrow> nat option \<Rightarrow> SourceChunk" where
  "citation l n =
     \<lparr>label = l, file_name = None, page_number = n, viewer_url = None, chunk_text = []\<rparr>"

definition response_of :: "SourceChunk list \<Rightarrow> AskResponse" where
  "response_of xs = \<lparr>answer_text = [], sources = Some xs\<rparr>"

text \<open>The state after a submission from the initial state has succeeded with \<open>xs\<close>.\<close>

definition answered :: "SourceChunk list \<Rightarrow> app_state" where
  "answered xs = fst (handleSubmit example_platform (Resolved (response_of xs)) initial_state)"

text \<open>
  Two responses for the examples: citations \<^verbatim>\<open>A\<close> (page 3) and \<^verbatim>\<open>B\<close> (no page),
  and two citations of one label that are two pages of one file.
\<close>

definition two_citations :: "SourceChunk list" where
  "two_citations = [citation ''A'' (Some 3), citation ''B'' None]"

definition same_label_pair :: "SourceChunk list" where
  "same_label_pair =
     [\<lparr>label = ''A'', file_name = Some ''f'', page_number = Some 1,
       viewer_url = Some ''/f#page=1'', chunk_text = []\<rparr>,
      \<lparr>label = ''A'', file_name = Some ''f'', page_number = Some 2,
       viewer_url = Some ''/f#page=2'', chunk_text = []\<rparr>]"

text \<open>
  For the links: a host whose \<open>resolveViewerUrl\<close> answers with one link whatever it
  is given, a link whose fragment carries a page and a search term, what the parser
  makes of it, and a citation with that link.
\<close>

definition fixed_link_platform :: platform where
  "fixed_link_platform =
     \<lparr>has_window = True, resolveViewerUrl = (\<lambda>v. Some ''https://host/doc''),
      URL_new = example_URL\<rparr>"

definition search_link :: string where
  "search_link = ''https://host/doc#page=2&search=foo''"

definition search_url :: url where
  "search_url =
     \<lparr>url_prefix = ''https://host/doc'', url_opaque_path = False,
      url_fragment = Some ''page=2&search=foo''\<rparr>"

definition linked_citation :: SourceChunk where
  "linked_citation =
     \<lparr>label = ''A'', file_name = None, page_number = None,
      viewer_url = Some search_link, chunk_text = []\<rparr>"

section \<open>Facts about the examples\<close>

lemma string_of_nat_digit: "n < 10 \<Longrightarrow> string_of_nat n = [digit_char n]"
  by (simp add: string_of_nat.simps)

lemma answered_simps:
  "answer (answered xs) = Some (response_of xs)"
  "selectedSource (answered xs) = (case xs of [] \<Rightarrow> None | s # _ \<Rightarrow> Some s)"
  "expandedKey (answered xs) = None"
  "answerHighlighted (answered xs) = True"
  "rendered_sources (answered xs) = xs"
  by (simp_all add: answered_def response_of_def handleSubmit_def handleSubmit_settle_def
      first_source_def rendered_sources_def split: list.split)

lemma run_answered:
  "run example_platform initial_state [SubmitClick, SubmitSettled (Resolved (response_of xs))] =
     answered xs"
  by (simp add: answered_def handleSubmit_def initial_state_def)

lemma two_keys: "rendered_keys (answered two_citations) = [''A-3'', ''B-1'']"
  "source_key (citation ''A'' (Some 3)) 0 = ''A-3''"
  "source_key (citation ''B'' None) 1 = ''B-1''"
  "source_key (citation ''B'' None) (Suc 0) = ''B-1''"
  by (simp_all add: rendered_keys_def answered_simps two_citations_def source_key_def citation_def
      string_of_nat_digit digit_char_def char_of_eq_iff upt_rec)

lemma resolved_answered:
  "resolvedSource (answered (x # xs)) = Some x"
  by (simp add: resolvedSource_def answered_simps)

section \<open>Submission\<close>

text \<open>
  C8. A submission first sets \<open>loading\<close> and clears \<open>error\<close>, touching nothing
  else, and the rest runs from that pending state. When the call succeeds, the response
  is stored, the selected citation is the first one of the response (none when it has
  no citation), no key is expanded, the answer is highlighted, the scroll to the
  answer is requested (scheduled when there is a window), and \<open>loading\<close> is off
  again.
\<close>

theorem successful_submit_state:
  "handleSubmit_begin st = st\<lparr>loading := True, error := None\<rparr>
   \<and> handleSubmit p (Resolved response) st =
       handleSubmit_settle p (Resolved response) (handleSubmit_begin st)
   \<and> answer (fst (handleSubmit p (Resolved response) st)) = Some response
   \<and> selectedSource (fst (handleSubmit p (Resolved response) st)) =
       (case sources response of
          None \<Rightarrow> None
        | Some xs \<Rightarrow> if xs = [] then None else Some (xs ! 0))
   \<and> expandedKey (fst (handleSubmit p (Resolved response) st)) = None
   \<and> answerHighlighted (fst (handleSubmit p (Resolved response) st)) = True
   \<and> snd (handleSubmit p (Resolved response) st) = scrollAnswerIntoView p
   \<and> scrollAnswerIntoView p = (if has_window p then [ScrollAnswerIntoView] else [])
   \<and> loading (fst (handleSubmit p (Resolved response) st)) = False"
proof -
  have first: "first_source (Some response) =
      (case sources response of
         None \<Rightarrow> None
       | Some xs \<Rightarrow> if xs = [] then None else Some (xs ! 0))"
    by (simp add: first_source_def split: option.split list.split)
  show ?thesis
    unfolding handleSubmit_def handleSubmit_settle_def handleSubmit_begin_def
      scrollAnswerIntoView_def
    by (simp add: first)
qed

text \<open>
  C7, as the specification states it, fails: the generic message is not tied to the
  failure carrying no message. A rejected value that is no \<^verbatim>\<open>Error\<close> and carries the
  message \<^verbatim>\<open>m\<close> leaves the generic message in \<open>error\<close>, and an \<^verbatim>\<open>Error\<close> whose
  message is empty leaves the empty string there.
\<close>

theorem failure_message_counterexample:
  "error (fst (handleSubmit example_platform (Rejected (JsOther (Some ''m''))) initial_state)) =
     Some ''Failed to reach backend''
   \<and> error (fst (handleSubmit example_platform (Rejected (JsOther (Some ''m''))) initial_state)) \<noteq>
     Some ''m''
   \<and> error (fst (handleSubmit example_platform (Rejected (JsError [])) initial_state)) = Some []
   \<and> error (fst (handleSubmit example_platform (Rejected (JsError [])) initial_state)) \<noteq>
     Some ''Failed to reach backend''"
  by (simp add: handleSubmit_def handleSubmit_settle_def failure_message_def)

text \<open>
  C7, amended. After a failing submission \<open>error\<close> is the message of the thrown value
  when that is an instance of \<^verbatim>\<open>Error\<close>, whatever the message, the empty one
  included; it is \<^verbatim>\<open>Failed to reach backend\<close> when the thrown value is anything else,
  whether or not it carries a message. There is no answer, no highlight, \<open>loading\<close>
  is off, and the request, with the question the user entered, is what it was before.
\<close>

theorem failing_submit_state:
  "error (fst (handleSubmit p (Rejected (JsError m)) st)) = Some m
   \<and> error (fst (handleSubmit p (Rejected (JsOther carried)) st)) =
       Some ''Failed to reach backend''
   \<and> answer (fst (handleSubmit p (Rejected err) st)) = None
   \<and> answerHighlighted (fst (handleSubmit p (Rejected err) st)) = False
   \<and> loading (fst (handleSubmit p (Rejected err) st)) = False
   \<and> request (fst (handleSubmit p (Rejected err) st)) = request st
   \<and> question (request (fst (handleSubmit p (Rejected err) st))) = question (request st)"
  unfolding handleSubmit_def handleSubmit_settle_def handleSubmit_begin_def failure_message_def
  by simp

text \<open>
  C10. A failing submission leaves \<open>selectedSource\<close> and \<open>expandedKey\<close> as they
  were: the failure branch writes \<open>error\<close>, \<open>answer\<close>, \<open>answerHighlighted\<close> and
  \<open>loading\<close> and nothing else, both for the settling step alone and for the whole
  submission.
\<close>

theorem failing_submit_frame:
  "fst (handleSubmit_settle p (Rejected err) st) =
     st\<lparr>error := error (fst (handleSubmit_settle p (Rejected err) st)),
        answer := answer (fst (handleSubmit_settle p (Rejected err) st)),
        answerHighlighted := answerHighlighted (fst (handleSubmit_settle p (Rejected err) st)),
        loading := loading (fst (handleSubmit_settle p (Rejected err) st))\<rparr>
   \<and> selectedSource (fst (handleSubmit_settle p (Rejected err) st)) = selectedSource st
   \<and> expandedKey (fst (handleSubmit_settle p (Rejected err) st)) = expandedKey st
   \<and> selectedSource (fst (handleSubmit p (Rejected err) st)) = selectedSource st
   \<and> expandedKey (fst (handleSubmit p (Rejected err) st)) = expandedKey st"
  by (simp add: handleSubmit_def handleSubmit_settle_def handleSubmit_begin_def)

section \<open>The resolved citation\<close>

lemma first_source_rendered:
  "first_source (answer st) = (case rendered_sources st of [] \<Rightarrow> None | s # _ \<Rightarrow> Some s)"
  by (simp add: first_source_def rendered_sources_def split: option.split list.split)

text \<open>
  C6. In every state the resolved citation is the one the specification words: the
  selected citation if there is one, else the first citation of the latest response,
  else none. With no selection and no citation there is no resolved citation and the
  label shown is the placeholder; this is the state a successful submission leaves
  when the response has an empty citation list.
\<close>

theorem resolvedSource_spec:
  "resolvedSource st = spec_resolvedCitation st
   \<and> (selectedSource st = None \<and> rendered_sources st = [] \<longrightarrow>
        resolvedSource st = None \<and> resolvedSourceLabel st = no_source_label)
   \<and> (sources response = Some [] \<longrightarrow>
        resolvedSource (fst (handleSubmit p (Resolved response) st)) = None \<and>
        resolvedSourceLabel (fst (handleSubmit p (Resolved response) st)) = no_source_label)"
proof (intro conjI impI)
  show eq: "resolvedSource st = spec_resolvedCitation st" for st
    by (cases "selectedSource st"; cases "rendered_sources st")
      (simp_all add: resolvedSource_def spec_resolvedCitation_def first_source_rendered)
  {
    assume "selectedSource st = None \<and> rendered_sources st = []"
    then show none: "resolvedSource st = None"
      by (simp add: eq spec_resolvedCitation_def)
    then show "resolvedSourceLabel st = no_source_label"
      by (simp add: resolvedSourceLabel_def)
  }
  {
    assume empty: "sources response = Some []"
    let ?st = "fst (handleSubmit p (Resolved response) st)"
    have "selectedSource ?st = None" "rendered_sources ?st = []"
      using empty
      by (simp_all add: handleSubmit_def handleSubmit_settle_def first_source_def
          rendered_sources_def)
    then show none: "resolvedSource ?st = None"
      by (simp add: eq spec_resolvedCitation_def)
    then show "resolvedSourceLabel ?st = no_source_label"
      by (simp add: resolvedSourceLabel_def)
  }
qed

theorem resolvedSource_spec_witness:
  "selectedSource (answered []) = None \<and> rendered_sources (answered []) = []
   \<and> resolvedSource (answered []) = None
   \<and> resolvedSourceLabel (answered []) = no_source_label"
proof -
  have pre: "selectedSource (answered []) = None \<and> rendered_sources (answered []) = []"
    by (simp add: answered_def response_of_def handleSubmit_def handleSubmit_settle_def
        first_source_def rendered_sources_def)
  with resolvedSource_spec [where st = "answered []" and response = "response_of []"
      and p = example_platform]
  show ?thesis by blast
qed

section \<open>The highlight\<close>

text \<open>
  C3, as the specification states it, fails: editing the question clears the highlight.
  After a successful submission from the initial state the answer is highlighted, and
  one change of the text area turns the highlight off.
\<close>

theorem input_change_clears_highlight_counterexample:
  "run example_platform initial_state [SubmitClick, SubmitSettled (Resolved (response_of []))] =
     answered []
   \<and> answerHighlighted (answered [])
   \<and> \<not> answerHighlighted (fst (step example_platform (InputChange ''x'') (answered [])))"
proof (intro conjI)
  show "run example_platform initial_state
      [SubmitClick, SubmitSettled (Resolved (response_of []))] = answered []"
    by (rule run_answered)
  show "answerHighlighted (answered [])"
    by (simp add: answered_simps)
  show "\<not> answerHighlighted (fst (step example_platform (InputChange ''x'') (answered [])))"
    by (simp add: handleInputChange_def clearAnswerHighlight_def)
qed

text \<open>
  C3, amended. In a state with the highlight on, an event turns it off exactly when it
  is a change of the question text, the failure of a submission, or a click or focus
  inside the answer card on an element that is rendered (the card itself, a citation
  row, its expand or quick-view button, the full-text button). A change of the question
  always leaves the highlight off; a click on the submit button leaves the highlight as
  it is; a successful submission turns it on; a failed one turns it off.
\<close>

theorem highlight_cleared_exactly_by:
  "(answerHighlighted st \<longrightarrow>
      (answerHighlighted (fst (step p ev st)) = False) = clears_highlight st ev)
   \<and> answerHighlighted (fst (step p (InputChange v) st)) = False
   \<and> answerHighlighted (fst (step p SubmitClick st)) = answerHighlighted st
   \<and> answerHighlighted (fst (step p (SubmitSettled (Resolved r)) st)) = True
   \<and> answerHighlighted (fst (step p (SubmitSettled (Rejected err)) st)) = False"
proof (intro conjI impI)
  assume "answerHighlighted st"
  then show "(answerHighlighted (fst (step p ev st)) = False) = clears_highlight st ev"
  proof (cases ev)
    case (SubmitSettled s)
    then show ?thesis
      by (cases s) (simp_all add: handleSubmit_settle_def)
  qed (simp_all add: handleInputChange_def clearAnswerHighlight_def handleSubmit_begin_def
      handleSourceClick_def toggleExpand_def)
qed (simp_all add: handleInputChange_def clearAnswerHighlight_def handleSubmit_begin_def
    handleSubmit_settle_def)

theorem highlight_cleared_exactly_by_witness:
  "answerHighlighted (answered [])
   \<and> clears_highlight (answered []) (InputChange ''x'')
   \<and> answerHighlighted (fst (step example_platform (InputChange ''x'') (answered []))) = False
   \<and> \<not> clears_highlight (answered []) SubmitClick
   \<and> answerHighlighted (fst (step example_platform SubmitClick (answered []))) = True"
proof -
  have hl: "answerHighlighted (answered [])"
    by (simp add: answered_simps)
  from highlight_cleared_exactly_by [of "answered []" example_platform "InputChange ''x''"]
    highlight_cleared_exactly_by [of "answered []" example_platform SubmitClick] hl
  show ?thesis by simp
qed

section \<open>The active row\<close>

lemma rendered_sources_same:
  "answer st' = answer st \<Longrightarrow> rendered_sources st' = rendered_sources st"
  by (simp add: rendered_sources_def)

lemma row_click_state:
  "idx < length (rendered_sources st) \<Longrightarrow>
     fst (step p (CitationRowClick idx) st) =
       st\<lparr>selectedSource := Some (rendered_sources st ! idx), answerHighlighted := False\<rparr>"
  by (simp add: handleSourceClick_def clearAnswerHighlight_def)

lemma quick_view_state:
  "idx < length (rendered_sources st) \<Longrightarrow>
     fst (step p (QuickViewButtonClick idx) st) =
       st\<lparr>selectedSource := Some (rendered_sources st ! idx), answerHighlighted := False\<rparr>"
  by (simp add: handleSourceClick_def clearAnswerHighlight_def rendered_sources_def)

lemma selection_listed_same:
  assumes "selection_listed st" and "answer st' = answer st"
    and "selectedSource st' = selectedSource st"
  shows "selection_listed st'"
  using assms rendered_sources_same [of st' st]
  by (simp add: selection_listed_def split: option.splits)

lemma selection_listed_select:
  assumes "idx < length (rendered_sources st)"
  shows "selection_listed
    (st\<lparr>selectedSource := Some (rendered_sources st ! idx), answerHighlighted := False\<rparr>)"
proof -
  have "rendered_sources
      (st\<lparr>selectedSource := Some (rendered_sources st ! idx), answerHighlighted := False\<rparr>) =
      rendered_sources st"
    by (rule rendered_sources_same) simp
  with assms show ?thesis
    by (simp add: selection_listed_def)
qed

lemma step_selection_listed:
  assumes "selection_listed st"
  shows "selection_listed (fst (step p ev st))"
proof (cases ev)
  case (InputChange v)
  show ?thesis
    unfolding InputChange
    by (rule selection_listed_same [OF assms])
      (simp_all add: handleInputChange_def clearAnswerHighlight_def)
next
  case SubmitClick
  show ?thesis
    unfolding SubmitClick
    by (rule selection_listed_same [OF assms]) (simp_all add: handleSubmit_begin_def)
next
  case (SubmitSettled r)
  then show ?thesis
    by (cases r)
      (simp_all add: selection_listed_def handleSubmit_settle_def first_source_def
        rendered_sources_def split: option.split list.split)
next
  case AnswerCardClick
  show ?thesis
    unfolding AnswerCardClick
    by (rule selection_listed_same [OF assms]) (simp_all add: clearAnswerHighlight_def)
next
  case AnswerCardFocus
  show ?thesis
    unfolding AnswerCardFocus
    by (rule selection_listed_same [OF assms]) (simp_all add: clearAnswerHighlight_def)
next
  case (CitationRowClick idx)
  show ?thesis
  proof (cases "idx < length (rendered_sources st)")
    case True
    then show ?thesis
      unfolding CitationRowClick row_click_state [OF True]
      by (rule selection_listed_select)
  next
    case False
    with CitationRowClick assms show ?thesis by simp
  qed
next
  case (ExpandButtonClick idx)
  show ?thesis
    unfolding ExpandButtonClick
    by (rule selection_listed_same [OF assms])
      (simp_all add: toggleExpand_def clearAnswerHighlight_def)
next
  case (QuickViewButtonClick idx)
  show ?thesis
  proof (cases "idx < length (rendered_sources st)")
    case True
    then show ?thesis
      unfolding QuickViewButtonClick quick_view_state [OF True]
      by (rule selection_listed_select)
  next
    case False
    with QuickViewButtonClick assms show ?thesis by simp
  qed
next
  case FullTextButtonClick
  show ?thesis
    unfolding FullTextButtonClick
    by (rule selection_listed_same [OF assms]) (simp_all add: clearAnswerHighlight_def)
qed

lemma run_selection_listed:
  "selection_listed st \<Longrightarrow> selection_listed (run p st evs)"
  by (induction evs arbitrary: st) (simp_all add: step_selection_listed)

lemma selected_is_rendered:
  assumes "st = run p initial_state evs" and "rendered_sources st \<noteq> []"
  obtains s where "selectedSource st = Some s" and "s \<in> set (rendered_sources st)"
proof -
  have "selection_listed initial_state"
    by (simp add: selection_listed_def initial_state_def rendered_sources_def)
  then have "selection_listed (run p initial_state evs)"
    by (rule run_selection_listed)
  with assms(1) have listed: "selection_listed st" by simp
  from assms(2) have "answer st \<noteq> None"
    by (auto simp: rendered_sources_def split: option.splits)
  with listed assms(2) that show ?thesis
    by (cases "selectedSource st") (auto simp: selection_listed_def)
qed

lemma rendered_key_nth:
  "idx < length (rendered_sources st) \<Longrightarrow>
     rendered_keys st ! idx = source_key (rendered_sources st ! idx) idx"
  by (simp add: rendered_keys_def)

lemma length_rendered_keys: "length (rendered_keys st) = length (rendered_sources st)"
  by (simp add: rendered_keys_def)

lemma resolved_is_rendered:
  assumes "st = run p initial_state evs" and "rendered_sources st \<noteq> []"
  obtains j where "j < length (rendered_sources st)"
    and "resolvedSource st = Some (rendered_sources st ! j)"
proof -
  from assms obtain s where sel: "selectedSource st = Some s"
    and "s \<in> set (rendered_sources st)"
    by (rule selected_is_rendered)
  then obtain j where "j < length (rendered_sources st)" "rendered_sources st ! j = s"
    by (auto simp: in_set_conv_nth)
  with sel that [of j] show ?thesis
    by (simp add: resolvedSource_def)
qed

text \<open>
  With a citation selected, the second test of \<open>isActive\<close> decides alone: where it
  fails the labels differ, so the first test fails too.
\<close>

lemma isActive_selected:
  "selectedSource st = Some s \<Longrightarrow> isActive st source = (label s = label source)"
  by (auto simp: isActive_def resolvedSource_def)

lemma isActive_label:
  assumes "st = run p initial_state evs" and "idx < length (rendered_sources st)"
  shows "isActive st (rendered_sources st ! idx) =
    (map_option label (resolvedSource st) = Some (label (rendered_sources st ! idx)))"
proof -
  from assms(2) have "rendered_sources st \<noteq> []" by auto
  with assms(1) obtain s where sel: "selectedSource st = Some s"
    by (rule selected_is_rendered)
  then have "resolvedSource st = Some s"
    by (simp add: resolvedSource_def)
  with isActive_selected [OF sel] show ?thesis by simp
qed

lemma isActive_if_key:
  assumes keys: "distinct (rendered_keys st)"
    and i: "idx < length (rendered_sources st)" and j: "j < length (rendered_sources st)"
    and res: "resolvedSource st = Some (rendered_sources st ! j)"
    and same: "source_key (rendered_sources st ! idx) idx = source_key (rendered_sources st ! j) j"
  shows "isActive st (rendered_sources st ! idx)"
proof -
  from same i j have "rendered_keys st ! idx = rendered_keys st ! j"
    by (simp add: rendered_key_nth)
  with nth_eq_iff_index_eq [OF keys, of idx j] i j have "idx = j"
    by (simp add: length_rendered_keys)
  with res show ?thesis
    by (simp add: isActive_def)
qed

lemma isActive_only_if_key:
  assumes reach: "st = run p initial_state evs"
    and labels: "distinct (map label (rendered_sources st))"
    and i: "idx < length (rendered_sources st)"
    and active: "isActive st (rendered_sources st ! idx)"
  shows "\<exists>j < length (rendered_sources st).
    resolvedSource st = Some (rendered_sources st ! j) \<and>
    source_key (rendered_sources st ! idx) idx = source_key (rendered_sources st ! j) j"
proof -
  let ?xs = "rendered_sources st"
  from i have "?xs \<noteq> []" by auto
  with reach obtain j where j: "j < length ?xs" and res: "resolvedSource st = Some (?xs ! j)"
    by (rule resolved_is_rendered)
  from active isActive_label [OF reach i] res have "label (?xs ! j) = label (?xs ! idx)"
    by simp
  with nth_eq_iff_index_eq [OF labels, of idx j] i j have "idx = j" by simp
  with j res show ?thesis by auto
qed

lemma select_second_row:
  assumes "rendered_sources st = [a, b]" and "label a \<noteq> label b"
  shows "isActive (fst (step p (CitationRowClick 1) st)) b"
    and "\<not> isActive (fst (step p (CitationRowClick 1) st)) a"
    and "answerHighlighted (fst (step p (CitationRowClick 1) st)) = False"
proof -
  let ?st = "fst (step p (CitationRowClick 1) st)"
  from assms(1) have sel: "selectedSource ?st = Some b"
    and hl: "answerHighlighted ?st = False"
    by (simp_all add: handleSourceClick_def clearAnswerHighlight_def)
  from isActive_selected [OF sel] show "isActive ?st b" by simp
  from isActive_selected [OF sel] assms(2) show "\<not> isActive ?st a" by auto
  from hl show "answerHighlighted ?st = False" .
qed

lemma same_label_rows:
  "rendered_sources (answered same_label_pair) = same_label_pair"
  "rendered_keys (answered same_label_pair) = [''f-1'', ''f-2'']"
  "resolvedSource (answered same_label_pair) = Some (same_label_pair ! 0)"
  "isActive (answered same_label_pair) (same_label_pair ! 0)"
  "isActive (answered same_label_pair) (same_label_pair ! 1)"
  "source_key (same_label_pair ! 1) 1 \<noteq> source_key (same_label_pair ! 0) 0"
  "viewer_url (same_label_pair ! 1) \<noteq> viewer_url (same_label_pair ! 0)"
  by (simp_all add: rendered_keys_def answered_simps same_label_pair_def source_key_def
      resolvedSource_def isActive_def upt_rec string_of_nat_digit digit_char_def
      char_of_eq_iff)

text \<open>
  C1. The claim is that a listed citation is active exactly when its key is the key of
  the resolved citation. The component misses it where listed citations share a label.
  In every state reached from the initial one, a listed citation is active exactly when
  its label is the label of the resolved citation: the second test of \<open>isActive\<close>,
  the label of the selected citation alone, leaves its first test, label and link of
  the resolved citation, nothing to decide. So with distinct keys the row whose key is
  the resolved one is always active, as claimed, and with distinct labels as well no
  other row is; selecting the second of two rows with different labels makes it active,
  the first one not, and turns the highlight off, as claimed. But for two pages of one
  file under one label, with keys \<^verbatim>\<open>f-1\<close> and \<^verbatim>\<open>f-2\<close> and different links, a
  successful submission resolves the first and both rows are active.
\<close>

theorem isActive_by_label:
  "(st = run p initial_state evs \<and> idx < length (rendered_sources st) \<longrightarrow>
      isActive st (rendered_sources st ! idx) =
        (map_option label (resolvedSource st) = Some (label (rendered_sources st ! idx))))
   \<and> (distinct (rendered_keys st) \<and> idx < length (rendered_sources st) \<and>
       j < length (rendered_sources st) \<and>
       resolvedSource st = Some (rendered_sources st ! j) \<and>
       source_key (rendered_sources st ! idx) idx = source_key (rendered_sources st ! j) j \<longrightarrow>
         isActive st (rendered_sources st ! idx))
   \<and> (st = run p initial_state evs \<and> distinct (map label (rendered_sources st)) \<and>
       idx < length (rendered_sources st) \<and> isActive st (rendered_sources st ! idx) \<longrightarrow>
         (\<exists>j < length (rendered_sources st).
            resolvedSource st = Some (rendered_sources st ! j) \<and>
            source_key (rendered_sources st ! idx) idx =
              source_key (rendered_sources st ! j) j))
   \<and> (rendered_sources st = [a, b] \<and> label a \<noteq> label b \<longrightarrow>
        isActive (fst (step p (CitationRowClick 1) st)) b \<and>
        \<not> isActive (fst (step p (CitationRowClick 1) st)) a \<and>
        answerHighlighted (fst (step p (CitationRowClick 1) st)) = False)
   \<and> run example_platform initial_state
        [SubmitClick, SubmitSettled (Resolved (response_of same_label_pair))] =
        answered same_label_pair
   \<and> rendered_sources (answered same_label_pair) = same_label_pair
   \<and> rendered_keys (answered same_label_pair) = [''f-1'', ''f-2'']
   \<and> resolvedSource (answered same_label_pair) = Some (same_label_pair ! 0)
   \<and> isActive (answered same_label_pair) (same_label_pair ! 0)
   \<and> isActive (answered same_label_pair) (same_label_pair ! 1)
   \<and> source_key (same_label_pair ! 1) 1 \<noteq> source_key (same_label_pair ! 0) 0
   \<and> viewer_url (same_label_pair ! 1) \<noteq> viewer_url (same_label_pair ! 0)"
proof (intro conjI impI)
  show "isActive st (rendered_sources st ! idx) =
      (map_option label (resolvedSource st) = Some (label (rendered_sources st ! idx)))"
    if "st = run p initial_state evs \<and> idx < length (rendered_sources st)"
    using that by (intro isActive_label) blast+
  show "isActive st (rendered_sources st ! idx)"
    if "distinct (rendered_keys st) \<and> idx < length (rendered_sources st) \<and>
       j < length (rendered_sources st) \<and>
       resolvedSource st = Some (rendered_sources st ! j) \<and>
       source_key (rendered_sources st ! idx) idx = source_key (rendered_sources st ! j) j"
    using that by (intro isActive_if_key [where j = j]) blast+
  show "\<exists>j < length (rendered_sources st).
      resolvedSource st = Some (rendered_sources st ! j) \<and>
      source_key (rendered_sources st ! idx) idx = source_key (rendered_sources st ! j) j"
    if "st = run p initial_state evs \<and> distinct (map label (rendered_sources st)) \<and>
       idx < length (rendered_sources st) \<and> isActive st (rendered_sources st ! idx)"
    using that by (intro isActive_only_if_key [where p = p and evs = evs]) blast+
  show "isActive (fst (step p (CitationRowClick 1) st)) b"
    "\<not> isActive (fst (step p (CitationRowClick 1) st)) a"
    "answerHighlighted (fst (step p (CitationRowClick 1) st)) = False"
    if "rendered_sources st = [a, b] \<and> label a \<noteq> label b"
    using that select_second_row [of st a b p] by blast+
  show "run example_platform initial_state
      [SubmitClick, SubmitSettled (Resolved (response_of same_label_pair))] =
      answered same_label_pair"
    by (rule run_answered)
qed (rule same_label_rows)+

theorem isActive_by_label_witness:
  "answered two_citations =
     run example_platform initial_state
       [SubmitClick, SubmitSettled (Resolved (response_of two_citations))]
   \<and> distinct (map label (rendered_sources (answered two_citations)))
   \<and> distinct (rendered_keys (answered two_citations))
   \<and> 0 < length (rendered_sources (answered two_citations))
   \<and> rendered_sources (answered two_citations) = [citation ''A'' (Some 3), citation ''B'' None]
   \<and> label (citation ''A'' (Some 3)) \<noteq> label (citation ''B'' None)
   \<and> resolvedSource (answered two_citations) = Some (rendered_sources (answered two_citations) ! 0)
   \<and> isActive (answered two_citations) (rendered_sources (answered two_citations) ! 0)
   \<and> (\<exists>j < length (rendered_sources (answered two_citations)).
         resolvedSource (answered two_citations) =
           Some (rendered_sources (answered two_citations) ! j) \<and>
         source_key (rendered_sources (answered two_citations) ! 0) 0 =
           source_key (rendered_sources (answered two_citations) ! j) j)
   \<and> isActive (fst (step example_platform (CitationRowClick 1) (answered two_citations)))
       (citation ''B'' None)
   \<and> \<not> isActive (fst (step example_platform (CitationRowClick 1) (answered two_citations)))
       (citation ''A'' (Some 3))
   \<and> answerHighlighted
       (fst (step example_platform (CitationRowClick 1) (answered two_citations))) = False"
proof -
  note at_rows = isActive_by_label [where p = example_platform
      and st = "answered two_citations" and idx = 0 and j = 0
      and evs = "[SubmitClick, SubmitSettled (Resolved (response_of two_citations))]"
      and a = "citation ''A'' (Some 3)" and b = "citation ''B'' None"]
  have ran: "answered two_citations =
      run example_platform initial_state
        [SubmitClick, SubmitSettled (Resolved (response_of two_citations))]"
    by (rule run_answered [symmetric])
  have keys: "distinct (rendered_keys (answered two_citations))"
    by (simp add: two_keys)
  have rows: "distinct (map label (rendered_sources (answered two_citations)))"
    "0 < length (rendered_sources (answered two_citations))"
    "rendered_sources (answered two_citations) = [citation ''A'' (Some 3), citation ''B'' None]"
    "label (citation ''A'' (Some 3)) \<noteq> label (citation ''B'' None)"
    by (simp_all add: answered_simps two_citations_def citation_def)
  have res: "resolvedSource (answered two_citations) =
      Some (rendered_sources (answered two_citations) ! 0)"
    by (simp add: answered_simps two_citations_def resolvedSource_def)
  have active: "isActive (answered two_citations) (rendered_sources (answered two_citations) ! 0)"
    by (rule at_rows [THEN conjunct2, THEN conjunct1, THEN mp])
      (intro conjI keys rows(2) res refl)
  have key: "\<exists>j < length (rendered_sources (answered two_citations)).
      resolvedSource (answered two_citations) =
        Some (rendered_sources (answered two_citations) ! j) \<and>
      source_key (rendered_sources (answered two_citations) ! 0) 0 =
        source_key (rendered_sources (answered two_citations) ! j) j"
    by (rule at_rows [THEN conjunct2, THEN conjunct2, THEN conjunct1, THEN mp])
      (intro conjI ran rows(1) rows(2) active)
  have click: "isActive (fst (step example_platform (CitationRowClick 1) (answered two_citations)))
        (citation ''B'' None) \<and>
      \<not> isActive (fst (step example_platform (CitationRowClick 1) (answered two_citations)))
        (citation ''A'' (Some 3)) \<and>
      answerHighlighted
        (fst (step example_platform (CitationRowClick 1) (answered two_citations))) = False"
    by (rule at_rows [THEN conjunct2, THEN conjunct2, THEN conjunct2, THEN conjunct1, THEN mp])
      (intro conjI rows(3) rows(4))
  from ran rows(1) keys rows(2) rows(3) rows(4) res active key click show ?thesis
    by (intro conjI) (erule conjunct1 conjunct2 | assumption | blast)+
qed

section \<open>The label of the preview\<close>

text \<open>
  C4, as the specification states it, fails on the text of the suffix: for the response
  with the citations \<^verbatim>\<open>A\<close> (page 3) and \<^verbatim>\<open>B\<close> (no page) the label shown after a
  successful submission is not \<^verbatim>\<open>A - page 3\<close> (with an en dash).
\<close>

theorem page_label_counterexample:
  "resolvedSource (answered [citation ''A'' (Some 3), citation ''B'' None]) =
     Some (citation ''A'' (Some 3))
   \<and> resolvedSourceLabel (answered [citation ''A'' (Some 3), citation ''B'' None]) \<noteq>
       ''A '' @ [CHR 0xE2, CHR 0x80, CHR 0x93] @ '' page 3''"
  by (simp add: resolved_answered resolvedSourceLabel_def citation_def page_infix_def
      string_of_nat_digit digit_char_def char_of_eq_iff)

text \<open>
  C4, amended. The label shown is the placeholder (the bytes of the Vietnamese text of
  line 57) when there is no resolved citation. Otherwise it is the label of the
  resolved citation, followed by an en dash between spaces, the word \<^verbatim>\<open>trang\<close> and the
  page number exactly when the page number is present and not zero; the page number is
  printed in decimal, which is stated for the page numbers below \<open>2 ^ 53\<close>, the
  integers a JavaScript number holds exactly. For the two citations of the example the
  label is \<^verbatim>\<open>A - trang 3\<close> (with an en dash).
\<close>

theorem resolvedSourceLabel_spec:
  "(resolvedSource st = None \<longrightarrow> resolvedSourceLabel st = no_source_label)
   \<and> (resolvedSource st = Some r \<and> page_number r = Some n \<and> n \<noteq> 0 \<and> n < 2 ^ 53 \<longrightarrow>
        resolvedSourceLabel st =
          label r @ '' '' @ [CHR 0xE2, CHR 0x80, CHR 0x93] @ '' trang '' @ string_of_nat n)
   \<and> (resolvedSource st = Some r \<and> (page_number r = None \<or> page_number r = Some 0) \<longrightarrow>
        resolvedSourceLabel st = label r)
   \<and> no_source_label =
        ''Ch'' @ [CHR 0xC6, CHR 0xB0] @ ''a ch'' @ [CHR 0xE1, CHR 0xBB, CHR 0x8D] @
        ''n ngu'' @ [CHR 0xE1, CHR 0xBB, CHR 0x93] @ ''n''
   \<and> resolvedSourceLabel (answered [citation ''A'' (Some 3), citation ''B'' None]) =
        ''A '' @ [CHR 0xE2, CHR 0x80, CHR 0x93] @ '' trang 3''"
proof (intro conjI impI)
  show "resolvedSourceLabel (answered [citation ''A'' (Some 3), citation ''B'' None]) =
      ''A '' @ [CHR 0xE2, CHR 0x80, CHR 0x93] @ '' trang 3''"
    by (simp add: resolved_answered resolvedSourceLabel_def citation_def page_infix_def
        string_of_nat_digit digit_char_def char_of_eq_iff)
qed (auto simp: resolvedSourceLabel_def page_infix_def no_source_label_def)

theorem resolvedSourceLabel_spec_witness:
  "resolvedSource (answered [citation ''A'' (Some 3), citation ''B'' None]) =
     Some (citation ''A'' (Some 3))
   \<and> page_number (citation ''A'' (Some 3)) = Some 3
   \<and> (3 :: nat) < 2 ^ 53
   \<and> resolvedSourceLabel (answered [citation ''A'' (Some 3), citation ''B'' None]) =
       label (citation ''A'' (Some 3)) @ '' '' @ [CHR 0xE2, CHR 0x80, CHR 0x93] @ '' trang '' @
       string_of_nat 3"
proof -
  have pre: "resolvedSource (answered [citation ''A'' (Some 3), citation ''B'' None]) =
      Some (citation ''A'' (Some 3))"
    "page_number (citation ''A'' (Some 3)) = Some 3"
    by (simp_all add: resolved_answered citation_def)
  with resolvedSourceLabel_spec [of "answered [citation ''A'' (Some 3), citation ''B'' None]"
      "citation ''A'' (Some 3)" 3]
  show ?thesis by simp
qed

section \<open>Expanding an excerpt\<close>

lemma one_index_of_key:
  "distinct ks \<Longrightarrow> length (filter (\<lambda>idx. k = ks ! idx) [0 ..< length ks]) \<le> 1"
proof (induction ks rule: rev_induct)
  case Nil
  then show ?case by simp
next
  case (snoc x xs)
  have same: "filter (\<lambda>idx. k = (xs @ [x]) ! idx) [0 ..< length xs] =
      filter (\<lambda>idx. k = xs ! idx) [0 ..< length xs]"
    by (rule filter_cong) (simp_all add: nth_append)
  show ?case
  proof (cases "x = k")
    case True
    with snoc.prems have "k \<notin> set xs" by simp
    then have "filter (\<lambda>idx. k = xs ! idx) [0 ..< length xs] = []"
      by (auto simp: filter_empty_conv)
    with True same show ?thesis by simp
  next
    case False
    with snoc same show ?thesis by simp
  qed
qed

lemma toggle_keeps_rows: "rendered_keys (toggleExpand k st) = rendered_keys st"
  by (simp add: rendered_keys_def rendered_sources_def toggleExpand_def clearAnswerHighlight_def)

text \<open>
  C9, as the specification states it, fails: two toggles of one key do not always give
  back the expanded key there was. With the row of \<^verbatim>\<open>A\<close> expanded, two clicks on the
  expand button of \<^verbatim>\<open>B\<close> leave no row expanded.
\<close>

theorem toggleExpand_twice_counterexample:
  "expandedKey (fst (step example_platform (ExpandButtonClick 0) (answered two_citations)))
     = Some ''A-3''
   \<and> source_key (rendered_sources (answered two_citations) ! 1) 1 = ''B-1''
   \<and> expandedKey (toggleExpand ''B-1'' (toggleExpand ''B-1''
        (fst (step example_platform (ExpandButtonClick 0) (answered two_citations)))))
     \<noteq> expandedKey
        (fst (step example_platform (ExpandButtonClick 0) (answered two_citations)))"
  by (simp add: answered_simps toggleExpand_def isExpanded_def clearAnswerHighlight_def
      two_citations_def two_keys)

text \<open>
  C9, amended. A toggle of key \<open>k\<close> sets the expanded key to none when it is \<open>k\<close>
  and to \<open>k\<close> otherwise, turns the highlight off and changes nothing else, the
  selected citation included. Two toggles of \<open>k\<close> leave \<open>k\<close> expanded when it was,
  and nothing expanded otherwise: the expanded key is back to what it was exactly when
  it was none or \<open>k\<close>. One key is stored, so at most one row is expanded when the keys
  of the rows are distinct.
\<close>

theorem toggleExpand_spec:
  "expandedKey (toggleExpand k st) = (if expandedKey st = Some k then None else Some k)
   \<and> answerHighlighted (toggleExpand k st) = False
   \<and> selectedSource (toggleExpand k st) = selectedSource st
   \<and> toggleExpand k st =
       st\<lparr>expandedKey := expandedKey (toggleExpand k st), answerHighlighted := False\<rparr>
   \<and> expandedKey (toggleExpand k (toggleExpand k st)) =
       (if expandedKey st = Some k then Some k else None)
   \<and> (expandedKey st = None \<or> expandedKey st = Some k \<longrightarrow>
        expandedKey (toggleExpand k (toggleExpand k st)) = expandedKey st)
   \<and> (distinct (rendered_keys (toggleExpand k st)) \<longrightarrow>
        length (expanded_rows (toggleExpand k st)) \<le> 1)"
proof (intro conjI impI)
  show "distinct (rendered_keys (toggleExpand k st)) \<Longrightarrow>
      length (expanded_rows (toggleExpand k st)) \<le> 1"
  proof (cases "expandedKey (toggleExpand k st)")
    case None
    then show ?thesis by (simp add: expanded_rows_def isExpanded_def)
  next
    case (Some key)
    assume "distinct (rendered_keys (toggleExpand k st))"
    from one_index_of_key [OF this, of key] Some show ?thesis
      by (simp add: expanded_rows_def isExpanded_def)
  qed
qed (auto simp: toggleExpand_def isExpanded_def clearAnswerHighlight_def)

theorem toggleExpand_spec_witness:
  "expandedKey (answered two_citations) = None
   \<and> distinct (rendered_keys (toggleExpand ''A-3'' (answered two_citations)))
   \<and> expandedKey (toggleExpand ''A-3'' (toggleExpand ''A-3'' (answered two_citations))) =
       expandedKey (answered two_citations)
   \<and> length (expanded_rows (toggleExpand ''A-3'' (answered two_citations))) \<le> 1"
proof -
  have pre: "expandedKey (answered two_citations) = None"
    "distinct (rendered_keys (toggleExpand ''A-3'' (answered two_citations)))"
    by (simp_all add: answered_simps toggle_keeps_rows two_keys)
  with toggleExpand_spec [of "''A-3''" "answered two_citations"]
  show ?thesis by simp
qed

section \<open>Parameter lists\<close>

subsection \<open>Splitting\<close>

lemma split_on_nonempty: "split_on d s \<noteq> []"
  by (induction s) (auto split: list.split)

lemma hd_split_on: "hd (split_on d s) = takeWhile (\<lambda>c. c \<noteq> d) s"
  by (induction s) (auto simp: split_on_nonempty split: list.split)

lemma before_hash_takeWhile: "before_hash a = takeWhile (\<lambda>c. c \<noteq> CHR ''#'') a"
  using hd_split_on [of "CHR ''#''" a] split_on_nonempty [of "CHR ''#''" a]
  by (cases "split_on CHR ''#'' a") (simp_all add: before_hash_def)

lemma split_on_no_sep: "d \<notin> set x \<Longrightarrow> split_on d x = [x]"
  by (induction x) auto

lemma split_on_append: "d \<notin> set x \<Longrightarrow> split_on d (x @ d # rest) = x # split_on d rest"
  by (induction x) (auto split: list.split)

subsection \<open>Hexadecimal digits\<close>

lemma of_char_hex_digit:
  "d < 16 \<Longrightarrow> (of_char (hex_digit d) :: nat) = (if d < 10 then 48 + d else 55 + d)"
  by (simp add: hex_digit_def)

lemma hex_digit_is_hex: "d < 16 \<Longrightarrow> is_hex (hex_digit d)"
  by (simp add: is_hex_def of_char_hex_digit)

lemma hex_val_hex_digit: "d < 16 \<Longrightarrow> hex_val (hex_digit d) = d"
  by (simp add: hex_val_def of_char_hex_digit)

lemma hex_digit_safe: "d < 16 \<Longrightarrow> urlencoded_safe (hex_digit d)"
  by (simp add: urlencoded_safe_def of_char_hex_digit)

lemma of_char_div_16: "(of_char c :: nat) div 16 < 16"
proof -
  have "(of_char c :: nat) < 256" by simp
  then show ?thesis by arith
qed

lemma percent_decode_byte:
  "percent_decode (percent_byte c @ rest) = c # percent_decode rest"
  by (simp add: percent_byte_def hex_digit_is_hex hex_val_hex_digit of_char_div_16)

lemma percent_decode_plain:
  "c \<noteq> CHR ''%'' \<Longrightarrow> percent_decode (c # rest) = c # percent_decode rest"
  by (cases rest rule: percent_decode.cases) simp_all


lemma urlencoded_safe_not_special:
  "urlencoded_safe c \<Longrightarrow>
     c \<noteq> CHR ''%'' \<and> c \<noteq> CHR ''+'' \<and> c \<noteq> CHR ''='' \<and> c \<noteq> CHR ''&'' \<and> c \<noteq> CHR '' ''"
  by (auto simp: urlencoded_safe_def Let_def)

lemma urlencoded_string_Cons:
  "urlencoded_string (c # s) = urlencoded_byte c @ urlencoded_string s"
  by (simp add: urlencoded_string_def)

lemma plus_to_space_percent_byte:
  "plus_to_space (percent_byte c) = percent_byte c"
  using urlencoded_safe_not_special [OF hex_digit_safe [OF of_char_div_16 [of c]]]
    urlencoded_safe_not_special [OF hex_digit_safe [of "of_char c mod 16"]]
  by (simp add: plus_to_space_def percent_byte_def)

lemma plus_to_space_append: "plus_to_space (a @ b) = plus_to_space a @ plus_to_space b"
  by (simp add: plus_to_space_def)

lemma decode_urlencoded_string:
  "percent_decode (plus_to_space (urlencoded_string s)) = s"
proof (induction s)
  case Nil
  then show ?case by (simp add: urlencoded_string_def plus_to_space_def)
next
  case (Cons c s)
  consider "c = CHR '' ''" | "c \<noteq> CHR '' ''" "urlencoded_safe c"
    | "c \<noteq> CHR '' ''" "\<not> urlencoded_safe c"
    by blast
  then show ?case
  proof cases
    case 1
    then show ?thesis
      using Cons by (simp add: urlencoded_string_Cons urlencoded_byte_def plus_to_space_append)
        (simp add: plus_to_space_def percent_decode_plain)
  next
    case 2
    with urlencoded_safe_not_special [of c] show ?thesis
      using Cons by (simp add: urlencoded_string_Cons urlencoded_byte_def plus_to_space_append)
        (simp add: plus_to_space_def percent_decode_plain)
  next
    case 3
    then show ?thesis
      using Cons
      by (simp add: urlencoded_string_Cons urlencoded_byte_def plus_to_space_append
          plus_to_space_percent_byte percent_decode_byte)
  qed
qed

lemma urlencoded_byte_chars:
  "x \<in> set (urlencoded_byte c) \<Longrightarrow> urlencoded_safe x \<or> x = CHR ''+'' \<or> x = CHR ''%''"
  using hex_digit_safe [OF of_char_div_16 [of c]] hex_digit_safe [of "of_char c mod 16"]
  by (auto simp: urlencoded_byte_def percent_byte_def split: if_splits)

lemma urlencoded_string_chars:
  "x \<in> set (urlencoded_string s) \<Longrightarrow> urlencoded_safe x \<or> x = CHR ''+'' \<or> x = CHR ''%''"
  by (auto simp: urlencoded_string_def dest: urlencoded_byte_chars)

lemma urlencoded_string_no_sep:
  "CHR ''='' \<notin> set (urlencoded_string s)" "CHR ''&'' \<notin> set (urlencoded_string s)"
  using urlencoded_string_chars [of "CHR ''=''" s] urlencoded_string_chars [of "CHR ''&''" s]
    urlencoded_safe_not_special [of "CHR ''=''"] urlencoded_safe_not_special [of "CHR ''&''"]
  by auto

lemma urlencoded_pair_serialized:
  "urlencoded_pair (urlencoded_string n @ CHR ''='' # urlencoded_string v) = (n, v)"
proof -
  have "takeWhile (\<lambda>c. c \<noteq> CHR ''='') (urlencoded_string n @ CHR ''='' # urlencoded_string v) =
      urlencoded_string n"
    using urlencoded_string_no_sep(1) [of n]
    by (subst takeWhile_append2) auto
  then show ?thesis
    by (simp add: urlencoded_pair_def Let_def decode_urlencoded_string)
qed

lemma parse_toString: "urlencoded_parse (params_toString q) = q"
proof (induction q rule: params_toString.induct)
  case 1
  then show ?case by (simp add: urlencoded_parse_def)
next
  case (2 n v)
  have "CHR ''&'' \<notin> set (urlencoded_string n @ CHR ''='' # urlencoded_string v)"
    using urlencoded_string_no_sep(2) by simp
  from split_on_no_sep [OF this] show ?case
    by (simp add: urlencoded_parse_def urlencoded_pair_serialized)
next
  case (3 n v p ps)
  have "CHR ''&'' \<notin> set (urlencoded_string n @ CHR ''='' # urlencoded_string v)"
    using urlencoded_string_no_sep(2) by simp
  from split_on_append [OF this, of "params_toString (p # ps)"] 3 show ?case
    by (simp add: urlencoded_parse_def urlencoded_pair_serialized)
qed

lemma params_toString_empty: "params_toString q = [] \<longleftrightarrow> q = []"
  by (induction q rule: params_toString.induct) simp_all


subsection \<open>The setter keeps a serialised parameter list\<close>

lemma params_toString_chars:
  "x \<in> set (params_toString q) \<Longrightarrow>
     urlencoded_safe x \<or> x = CHR ''+'' \<or> x = CHR ''%'' \<or> x = CHR ''='' \<or> x = CHR ''&''"
  by (induction q rule: params_toString.induct) (auto dest: urlencoded_string_chars)

lemma serialised_char_kept:
  assumes "urlencoded_safe x \<or> x = CHR ''+'' \<or> x = CHR ''%'' \<or> x = CHR ''='' \<or> x = CHR ''&''"
  shows "\<not> fragment_encode_set x \<and> x \<noteq> CHR 0x09 \<and> x \<noteq> CHR 0x0A \<and> x \<noteq> CHR 0x0D"
  using assms by (auto simp: urlencoded_safe_def fragment_encode_set_def Let_def)

lemma fragment_encode_kept:
  "(\<And>x. x \<in> set s \<Longrightarrow>
      \<not> fragment_encode_set x \<and> x \<noteq> CHR 0x09 \<and> x \<noteq> CHR 0x0A \<and> x \<noteq> CHR 0x0D) \<Longrightarrow>
   fragment_encode s = s"
  by (induction s) (simp_all add: fragment_encode_def)

lemma fragment_encode_toString: "fragment_encode (params_toString q) = params_toString q"
  by (rule fragment_encode_kept) (rule serialised_char_kept, rule params_toString_chars)

section \<open>The preview link\<close>

lemma without_search_no_fragment:
  "url_fragment u = None \<Longrightarrow> without_search u = url_prefix u"
  by (simp add: without_search_def url_hash_def url_toString_def)

lemma without_search_empty_fragment:
  "url_fragment u = Some [] \<Longrightarrow> without_search u = url_prefix u @ ''#''"
  by (simp add: without_search_def url_hash_def url_toString_def)

lemma without_search_fragment:
  assumes "url_fragment u = Some f" and "f \<noteq> []" and "\<not> url_opaque_path u"
  shows "without_search u =
    url_prefix u @
      (if params_delete ''search'' (URLSearchParams_new f) = [] then []
       else CHR ''#'' # params_toString (params_delete ''search'' (URLSearchParams_new f)))"
  using assms
  by (simp add: without_search_def url_hash_def url_toString_def url_hash_set_def Let_def
      params_toString_empty fragment_encode_toString)

lemma normalize_none:
  "normalize_viewer_url p v = None \<longleftrightarrow> \<not> truthy_str v \<or> \<not> truthy_str (resolveViewerUrl p v)"
  by (auto simp: normalize_viewer_url_def truthy_str_def split: option.splits)

lemma URLSearchParams_new_toString: "URLSearchParams_new (params_toString q) = q"
proof (cases "params_toString q")
  case Nil
  then show ?thesis
    using parse_toString [of q] by (simp add: URLSearchParams_new_def)
next
  case (Cons c cs)
  then have "c \<in> set (params_toString q)" by simp
  from params_toString_chars [OF this] have "c \<noteq> CHR ''?''"
    by (auto simp: urlencoded_safe_def Let_def)
  with Cons show ?thesis
    using parse_toString [of q] by (simp add: URLSearchParams_new_def)
qed

lemma decodes_to_utf8_remaining:
  assumes "decodes_to_utf8 f"
  shows "decodes_to_utf8 (params_toString (params_delete ''search'' (URLSearchParams_new f)))"
  using assms
  by (simp add: decodes_to_utf8_def URLSearchParams_new_toString params_delete_def
      list_all_iff)

lemma search_url_within_host_model: "within_host_model search_url"
  by (simp add: within_host_model_def search_url_def decodes_to_utf8_def
      URLSearchParams_new_def urlencoded_parse_def urlencoded_pair_def plus_to_space_def
      byte_in_def)

lemma search_link_parts:
  "resolveViewerUrl example_platform (Some search_link) = Some search_link"
  "search_link \<noteq> []"
  "URL_new example_platform search_link = Some search_url"
  "url_fragment search_url = Some ''page=2&search=foo''"
  "url_prefix search_url = ''https://host/doc''"
  "params_delete ''search'' (URLSearchParams_new ''page=2&search=foo'') = [(''page'', ''2'')]"
  by (simp_all add: example_platform_def example_URL_def search_link_def search_url_def
      params_delete_def URLSearchParams_new_def urlencoded_parse_def urlencoded_pair_def
      plus_to_space_def)

text \<open>
  C5, as the specification states it, fails at the edges. An empty \<open>viewer_url\<close> is
  present, and the resolver of this host has a link for it, yet there is no preview
  link: the component tests truthiness, not presence. And a link that ends in a bare
  \<^verbatim>\<open>#\<close> has no parameter left in its fragment, yet keeps the fragment marker.
\<close>

theorem normalize_none_counterexample:
  "normalize_viewer_url fixed_link_platform (Some []) = None
   \<and> resolveViewerUrl fixed_link_platform (Some []) = Some ''https://host/doc''
   \<and> normalize_viewer_url example_platform (Some ''https://host/doc#'') =
       Some ''https://host/doc#''"
  by (simp add: normalize_viewer_url_def truthy_str_def fixed_link_platform_def
      example_platform_def example_URL_def without_search_def url_hash_def url_toString_def)

text \<open>
  C5, amended. There is no preview link exactly when \<open>viewer_url\<close> is absent or
  empty, or the resolver yields nothing or the empty string. When the parser rejects
  the absolute link, the preview link is that link up to its first \<^verbatim>\<open>#\<close>. When it
  accepts it, and the URL has no opaque path and the names and values of its fragment
  decode to UTF-8, the preview link is the serialised URL with its fragment treated so:
  no fragment and the empty fragment are left as they are (the latter keeps its
  \<^verbatim>\<open>#\<close>); a fragment that is not empty is parsed as a parameter list, every pair
  named \<^verbatim>\<open>search\<close> is removed, and either nothing remains, and the link ends before
  the \<^verbatim>\<open>#\<close>, or the fragment is the serialisation of what remains, which is not
  empty, parses back to exactly the remaining pairs and decodes to UTF-8 again. The
  two links of the specification give \<^verbatim>\<open>https://host/doc#page=2\<close> and
  \<^verbatim>\<open>https://host/doc\<close>.
\<close>

theorem normalize_viewer_url_spec:
  "(normalize_viewer_url p v = None) =
      (v = None \<or> v = Some [] \<or> resolveViewerUrl p v = None \<or> resolveViewerUrl p v = Some [])
   \<and> (v \<noteq> None \<and> v \<noteq> Some [] \<and> resolveViewerUrl p v = Some a \<and> a \<noteq> [] \<and>
        URL_new p a = None \<longrightarrow>
          normalize_viewer_url p v = Some (takeWhile (\<lambda>c. c \<noteq> CHR ''#'') a))
   \<and> (v \<noteq> None \<and> v \<noteq> Some [] \<and> resolveViewerUrl p v = Some a \<and> a \<noteq> [] \<and>
        URL_new p a = Some u \<and> within_host_model u \<longrightarrow>
          normalize_viewer_url p v = Some (without_search u))
   \<and> (within_host_model u \<and> url_fragment u = None \<longrightarrow> without_search u = url_prefix u)
   \<and> (within_host_model u \<and> url_fragment u = Some [] \<longrightarrow>
        without_search u = url_prefix u @ ''#'')
   \<and> (within_host_model u \<and> url_fragment u = Some f \<and> f \<noteq> [] \<and>
        params_delete ''search'' (URLSearchParams_new f) = [] \<longrightarrow>
          without_search u = url_prefix u)
   \<and> (within_host_model u \<and> url_fragment u = Some f \<and> f \<noteq> [] \<and>
        params_delete ''search'' (URLSearchParams_new f) \<noteq> [] \<longrightarrow>
          (\<exists>g. without_search u = url_prefix u @ ''#'' @ g \<and> g \<noteq> [] \<and>
             URLSearchParams_new g = params_delete ''search'' (URLSearchParams_new f) \<and>
             decodes_to_utf8 g))
   \<and> ((n, x) \<in> set (params_delete ''search'' params)) = ((n, x) \<in> set params \<and> n \<noteq> ''search'')
   \<and> normalize_viewer_url example_platform (Some ''https://host/doc#page=2&search=foo'') =
        Some ''https://host/doc#page=2''
   \<and> normalize_viewer_url example_platform (Some ''https://host/doc#search=foo'') =
        Some ''https://host/doc''"
proof (intro conjI impI)
  show "(normalize_viewer_url p v = None) =
      (v = None \<or> v = Some [] \<or> resolveViewerUrl p v = None \<or> resolveViewerUrl p v = Some [])"
    by (auto simp: normalize_none truthy_str_def split: option.splits)
  show "normalize_viewer_url p v = Some (takeWhile (\<lambda>c. c \<noteq> CHR ''#'') a)"
    if "v \<noteq> None \<and> v \<noteq> Some [] \<and> resolveViewerUrl p v = Some a \<and> a \<noteq> [] \<and> URL_new p a = None"
    using that
    by (auto simp: normalize_viewer_url_def truthy_str_def before_hash_takeWhile
        split: option.splits)
  show "normalize_viewer_url p v = Some (without_search u)"
    if "v \<noteq> None \<and> v \<noteq> Some [] \<and> resolveViewerUrl p v = Some a \<and> a \<noteq> [] \<and>
      URL_new p a = Some u \<and> within_host_model u"
    using that
    by (auto simp: normalize_viewer_url_def truthy_str_def split: option.splits)
  show "without_search u = url_prefix u" if "within_host_model u \<and> url_fragment u = None"
    using that by (simp add: without_search_no_fragment)
  show "without_search u = url_prefix u @ ''#''"
    if "within_host_model u \<and> url_fragment u = Some []"
    using that by (simp add: without_search_empty_fragment)
  show "without_search u = url_prefix u"
    if "within_host_model u \<and> url_fragment u = Some f \<and> f \<noteq> [] \<and>
      params_delete ''search'' (URLSearchParams_new f) = []"
    using that without_search_fragment [of u f] by (simp add: within_host_model_def)
  show "\<exists>g. without_search u = url_prefix u @ ''#'' @ g \<and> g \<noteq> [] \<and>
      URLSearchParams_new g = params_delete ''search'' (URLSearchParams_new f) \<and>
      decodes_to_utf8 g"
    if hyp: "within_host_model u \<and> url_fragment u = Some f \<and> f \<noteq> [] \<and>
      params_delete ''search'' (URLSearchParams_new f) \<noteq> []"
  proof (intro exI conjI)
    let ?q = "params_delete ''search'' (URLSearchParams_new f)"
    from hyp without_search_fragment [of u f]
    show "without_search u = url_prefix u @ ''#'' @ params_toString ?q"
      by (simp add: within_host_model_def)
    from hyp show "params_toString ?q \<noteq> []" by (simp add: params_toString_empty)
    show "URLSearchParams_new (params_toString ?q) = ?q"
      by (rule URLSearchParams_new_toString)
    from hyp have "decodes_to_utf8 f" by (auto simp: within_host_model_def)
    then show "decodes_to_utf8 (params_toString ?q)"
      by (rule decodes_to_utf8_remaining)
  qed
  show "((n, x) \<in> set (params_delete ''search'' params)) = ((n, x) \<in> set params \<and> n \<noteq> ''search'')"
    by (auto simp: params_delete_def)
  show "normalize_viewer_url example_platform (Some ''https://host/doc#page=2&search=foo'') =
      Some ''https://host/doc#page=2''"
    by code_simp
  show "normalize_viewer_url example_platform (Some ''https://host/doc#search=foo'') =
      Some ''https://host/doc''"
    by code_simp
qed

theorem normalize_viewer_url_spec_witness:
  "Some search_link \<noteq> None \<and> Some search_link \<noteq> Some []
   \<and> resolveViewerUrl example_platform (Some search_link) = Some search_link
   \<and> search_link \<noteq> []
   \<and> URL_new example_platform search_link = Some search_url
   \<and> within_host_model search_url
   \<and> url_fragment search_url = Some ''page=2&search=foo''
   \<and> params_delete ''search'' (URLSearchParams_new ''page=2&search=foo'') \<noteq> []
   \<and> normalize_viewer_url example_platform (Some search_link) = Some (without_search search_url)
   \<and> (\<exists>g. without_search search_url = url_prefix search_url @ ''#'' @ g \<and> g \<noteq> [] \<and>
         URLSearchParams_new g =
           params_delete ''search'' (URLSearchParams_new ''page=2&search=foo'') \<and>
         decodes_to_utf8 g)
   \<and> resolveViewerUrl example_platform (Some ''/doc#search=foo'') = Some ''/doc#search=foo''
   \<and> URL_new example_platform ''/doc#search=foo'' = None
   \<and> normalize_viewer_url example_platform (Some ''/doc#search=foo'') = Some ''/doc''"
proof -
  note parsed = normalize_viewer_url_spec [where p = example_platform
      and v = "Some search_link" and a = search_link and u = search_url
      and f = "''page=2&search=foo''"]
  note rejected = normalize_viewer_url_spec [where p = example_platform
      and v = "Some ''/doc#search=foo''" and a = "''/doc#search=foo''"]
  have link: "Some search_link \<noteq> None" "Some search_link \<noteq> Some []"
    "resolveViewerUrl example_platform (Some search_link) = Some search_link"
    "search_link \<noteq> []"
    "URL_new example_platform search_link = Some search_url"
    by (simp_all add: search_link_parts)
  have model: "within_host_model search_url"
    by (rule search_url_within_host_model)
  have fragment: "url_fragment search_url = Some ''page=2&search=foo''"
    "''page=2&search=foo'' \<noteq> []"
    "params_delete ''search'' (URLSearchParams_new ''page=2&search=foo'') \<noteq> []"
    by (simp_all add: search_link_parts)
  have one: "normalize_viewer_url example_platform (Some search_link) =
      Some (without_search search_url)"
    by (rule parsed [THEN conjunct2, THEN conjunct2, THEN conjunct1, THEN mp])
      (simp add: link model)
  have two: "\<exists>g. without_search search_url = url_prefix search_url @ ''#'' @ g \<and> g \<noteq> [] \<and>
      URLSearchParams_new g =
        params_delete ''search'' (URLSearchParams_new ''page=2&search=foo'') \<and>
      decodes_to_utf8 g"
    by (rule parsed [THEN conjunct2, THEN conjunct2, THEN conjunct2, THEN conjunct2,
          THEN conjunct2, THEN conjunct2, THEN conjunct1, THEN mp])
      (simp add: model fragment)
  have relative: "resolveViewerUrl example_platform (Some ''/doc#search=foo'') =
      Some ''/doc#search=foo''"
    "URL_new example_platform ''/doc#search=foo'' = None"
    by (simp_all add: example_platform_def example_URL_def)
  have "normalize_viewer_url example_platform (Some ''/doc#search=foo'') =
      Some (takeWhile (\<lambda>c. c \<noteq> CHR ''#'') ''/doc#search=foo'')"
    by (rule rejected [THEN conjunct2, THEN conjunct1, THEN mp]) (simp add: relative)
  then have three: "normalize_viewer_url example_platform (Some ''/doc#search=foo'') =
      Some ''/doc''"
    by simp
  from link model fragment one two relative three show ?thesis
    by (intro conjI)
qed

section \<open>The full text\<close>

text \<open>
  C2, as the specification states it, fails: the full-text button opens the link the
  resolver returns, with its \<^verbatim>\<open>search\<close> parameter, while the preview shows the link
  without it.
\<close>

theorem full_text_not_normalized_counterexample:
  "snd (step example_platform FullTextButtonClick (answered [linked_citation])) =
     [WindowOpen ''https://host/doc#page=2&search=foo'' ''_blank'' ''noopener,noreferrer'']
   \<and> previewUrl example_platform (answered [linked_citation]) = Some ''https://host/doc#page=2''"
proof -
  have link: "Option.bind (resolvedSource (answered [linked_citation])) viewer_url =
      Some search_link"
    by (simp add: resolved_answered linked_citation_def)
  have "normalize_viewer_url example_platform (Some ''https://host/doc#page=2&search=foo'') =
      Some ''https://host/doc#page=2''"
    by code_simp
  with link have "previewUrl example_platform (answered [linked_citation]) =
      Some ''https://host/doc#page=2''"
    by (simp add: previewUrl_def search_link_def)
  moreover from link
  have "snd (step example_platform FullTextButtonClick (answered [linked_citation])) =
      [WindowOpen ''https://host/doc#page=2&search=foo'' ''_blank'' ''noopener,noreferrer'']"
    by (simp add: full_text_rendered_def openFullText_def answered_simps truthy_str_def
        search_link_def example_platform_def)
  ultimately show ?thesis by simp
qed

text \<open>
  C2, amended. The full-text button is rendered only for a resolved citation with a
  \<open>viewer_url\<close> that is not empty. When the resolver maps that to a link that is not
  empty and there is a window, a click opens exactly that link, unchanged, with the
  target \<^verbatim>\<open>_blank\<close> and the features \<^verbatim>\<open>noopener,noreferrer\<close>. No other event opens a
  window, and a window is never opened on anything but the resolver's link.
\<close>

theorem full_text_opens_resolved:
  "(full_text_rendered st \<and>
    resolveViewerUrl p (Option.bind (resolvedSource st) viewer_url) = Some direct \<and>
    direct \<noteq> [] \<and> has_window p \<longrightarrow>
      snd (step p FullTextButtonClick st) =
        [WindowOpen direct ''_blank'' ''noopener,noreferrer''])
   \<and> (full_text_rendered st \<longrightarrow>
        (\<exists>r link. resolvedSource st = Some r \<and> viewer_url r = Some link \<and> link \<noteq> []))
   \<and> (\<forall>url target features. WindowOpen url target features \<in> set (snd (step p ev st)) \<longrightarrow>
        ev = FullTextButtonClick \<and> target = ''_blank'' \<and> features = ''noopener,noreferrer'' \<and>
        resolveViewerUrl p (Option.bind (resolvedSource st) viewer_url) = Some url)"
proof (intro conjI impI allI)
  show "snd (step p FullTextButtonClick st) = [WindowOpen direct ''_blank'' ''noopener,noreferrer'']"
    if "full_text_rendered st \<and>
      resolveViewerUrl p (Option.bind (resolvedSource st) viewer_url) = Some direct \<and>
      direct \<noteq> [] \<and> has_window p"
    using that by (simp add: openFullText_def)
  show "\<exists>r link. resolvedSource st = Some r \<and> viewer_url r = Some link \<and> link \<noteq> []"
    if "full_text_rendered st"
    using that
    by (cases "resolvedSource st")
      (auto simp: full_text_rendered_def truthy_str_def split: option.splits)
  fix url target features
  assume opened: "WindowOpen url target features \<in> set (snd (step p ev st))"
  have ev: "ev = FullTextButtonClick"
  proof (cases ev)
    case (SubmitSettled r)
    with opened show ?thesis
      by (cases r) (auto simp: handleSubmit_settle_def scrollAnswerIntoView_def split: if_splits)
  qed (use opened in \<open>auto simp: handleSourceClick_def scrollPreviewIntoView_def
      split: if_splits\<close>)
  with opened show "ev = FullTextButtonClick" "target = ''_blank''"
    "features = ''noopener,noreferrer''"
    "resolveViewerUrl p (Option.bind (resolvedSource st) viewer_url) = Some url"
    by (auto simp: openFullText_def split: if_splits option.splits)
qed

theorem full_text_opens_resolved_witness:
  "full_text_rendered (answered [linked_citation])
   \<and> resolveViewerUrl example_platform
        (Option.bind (resolvedSource (answered [linked_citation])) viewer_url) = Some search_link
   \<and> search_link \<noteq> [] \<and> has_window example_platform
   \<and> snd (step example_platform FullTextButtonClick (answered [linked_citation])) =
        [WindowOpen search_link ''_blank'' ''noopener,noreferrer'']"
proof -
  have pre: "full_text_rendered (answered [linked_citation]) \<and>
      resolveViewerUrl example_platform
        (Option.bind (resolvedSource (answered [linked_citation])) viewer_url) = Some search_link \<and>
      search_link \<noteq> [] \<and> has_window example_platform"
    by (simp add: full_text_rendered_def resolved_answered answered_simps truthy_str_def
        linked_citation_def search_link_def example_platform_def)
  with full_text_opens_resolved [of "answered [linked_citation]" example_platform search_link]
  show ?thesis by blast
qed

end
